theory Spec2Isabelle
  imports Main "HOL-Library.AList" "HOL-Library.Sublist"
begin

section \<open>Data model\<close>

subsection \<open>Handler keys\<close>

text \<open>
  \<^verbatim>\<open>type handlerType int\<close> with its five constants, and the struct \<^verbatim>\<open>handlerKey\<close>
  under which a callback is stored.
\<close>

datatype handlerType = noHandler | beforeEvent | leaveState | enterState | afterEvent

record handlerKey =
  target :: string
  handlerType :: handlerType

subsection \<open>Errors\<close>

text \<open>
  A Go \<^verbatim>\<open>error\<close> value. There is one constructor for each \<^verbatim>\<open>fmt.Errorf\<close> call of the
  machine, carrying the arguments of its format string, and one for an error that a callback
  stores in the field \<^verbatim>\<open>Err\<close> of its event. \<open>nil\<close> is \<open>None\<close> of \<open>error option\<close>.
\<close>

datatype error =
    TransitionInProgress string
  | IllegalTransition string string
  | UnknownEvent string
  | InternalError
  | NoTransitionInProgress
  | CallbackError string

fun error_text :: "error \<Rightarrow> string" where
  "error_text (TransitionInProgress eventName) =
     ''event '' @ eventName @ '' inappropriate because previous startState did not complete''"
| "error_text (IllegalTransition eventName cur) =
     ''event '' @ eventName @ '' inappropriate in current state '' @ cur"
| "error_text (UnknownEvent eventName) = ''event '' @ eventName @ '' does not exist''"
| "error_text InternalError = ''internal error on state startState''"
| "error_text NoTransitionInProgress =
     ''startState inappropriate because no state change in progress''"
| "error_text (CallbackError msg) = msg"

subsection \<open>Event descriptors, the transition context, the machine\<close>

record EventDesc =
  Name :: string
  Src :: "string list"
  Dst :: string

record stateKey =
  event :: string
  src :: string

text \<open>
  The struct \<^verbatim>\<open>Event\<close>, the context handed to every callback of one transition. The
  arguments are opaque (\<^verbatim>\<open>[]interface{}\<close>), hence the type parameter. The field
  \<^verbatim>\<open>StateMachine\<close> (a pointer back to the machine) is left out: callbacks are modelled as
  acting on the context alone, see \<open>Handler\<close>.
\<close>

record 'a Event =
  Name :: string
  Src :: string
  Dst :: string
  Err :: "error option"
  Args :: "'a list"
  canceled :: bool
  async :: bool

text \<open>
  \<^verbatim>\<open>type Handler func(*Event)\<close>: a callback receives the context by reference and may
  change it; the model returns the changed context. A callback may write any field (in Go the
  exported fields directly, \<open>canceled\<close> and \<open>async\<close> through \<^verbatim>\<open>Cancel\<close> and
  \<^verbatim>\<open>Async\<close>). Callbacks that call back into the machine (\<^verbatim>\<open>Event\<close> or \<^verbatim>\<open>Excute\<close>
  from inside a callback) are outside this model.
\<close>

type_synonym 'a Handler = "'a Event \<Rightarrow> 'a Event"

definition Cancel :: "'a Event \<Rightarrow> 'a Event" where
  "Cancel ev = ev\<lparr>canceled := True\<rparr>"

definition Async :: "'a Event \<Rightarrow> 'a Event" where
  "Async ev = ev\<lparr>async := True\<rparr>"

text \<open>
  The function value stored in \<^verbatim>\<open>machine.startState\<close> is a closure over \<^verbatim>\<open>dst\<close>,
  \<^verbatim>\<open>eventName\<close> and the pointer \<^verbatim>\<open>event\<close> (and over the machine itself, which is the
  machine it is stored in). It is represented by what it captures; \<open>c_event\<close> is the
  current content of the captured context.
\<close>

record 'a closure =
  c_dst :: string
  c_eventName :: string
  c_event :: "'a Event"

text \<open>
  The struct \<^verbatim>\<open>StateMachine\<close>. \<open>states\<close> is the Go map from \<open>stateKey\<close> to the
  destination, kept as an association list with one entry per key because \<^verbatim>\<open>Event\<close>
  iterates over it; \<open>handlers\<close> is only ever looked up. \<open>startState = None\<close> is the nil
  function value.
\<close>

record 'a StateMachine =
  current :: string
  states :: "(stateKey \<times> string) list"
  handlers :: "handlerKey \<rightharpoonup> 'a Handler"
  startState :: "'a closure option"

text \<open>
  What a run of the machine lets an observer see, in order: each callback invocation (the
  key it was looked up under, the context as it was passed and the context as the callback
  left it) and each assignment to \<^verbatim>\<open>machine.current\<close>. The log is an output of the
  model only; no decision of the machine reads it.
\<close>

datatype 'a step = Call handlerKey "'a Event" "'a Event" | SetCurrent string

section \<open>Construction\<close>

text \<open>\<^verbatim>\<open>strings.HasPrefix\<close> and \<^verbatim>\<open>strings.TrimPrefix\<close> on byte strings.\<close>

definition HasPrefix :: "string \<Rightarrow> string \<Rightarrow> bool" where
  "HasPrefix s pre = (take (length pre) s = pre)"

definition TrimPrefix :: "string \<Rightarrow> string \<Rightarrow> string" where
  "TrimPrefix s pre = (if HasPrefix s pre then drop (length pre) s else s)"

text \<open>
  The first loop of \<^verbatim>\<open>NewStateMachine\<close>. The inner loop runs over the sources of one
  descriptor: it stores the table entry and records the source and the destination in
  \<^verbatim>\<open>allStates\<close>. The outer loop runs it for each descriptor and then records the event
  name in \<^verbatim>\<open>allEvents\<close>. The two Go maps to \<^verbatim>\<open>bool\<close> are used as sets.
\<close>

fun add_sources ::
  "string \<Rightarrow> string \<Rightarrow> string list \<Rightarrow> (stateKey \<times> string) list \<times> string set
    \<Rightarrow> (stateKey \<times> string) list \<times> string set" where
  "add_sources name dst [] acc = acc"
| "add_sources name dst (s # ss) (sts, allStates) =
     add_sources name dst ss
       (AList.update \<lparr>event = name, src = s\<rparr> dst sts, insert dst (insert s allStates))"

fun add_events ::
  "EventDesc list \<Rightarrow> (stateKey \<times> string) list \<times> string set \<times> string set
    \<Rightarrow> (stateKey \<times> string) list \<times> string set \<times> string set" where
  "add_events [] acc = acc"
| "add_events (d # ds) (sts, allEvents, allStates) =
     (case add_sources (EventDesc.Name d) (EventDesc.Dst d) (EventDesc.Src d) (sts, allStates) of
        (sts', allStates') \<Rightarrow>
          add_events ds (sts', insert (EventDesc.Name d) allEvents, allStates'))"

text \<open>
  The \<^verbatim>\<open>switch\<close> in the second loop: the values of the local variables \<^verbatim>\<open>target\<close> and
  \<^verbatim>\<open>handlerType\<close> after it, for one handler name. \<^verbatim>\<open>handlerType\<close> starts as the zero
  value \<open>noHandler\<close>.
\<close>

definition classify :: "string set \<Rightarrow> string set \<Rightarrow> string \<Rightarrow> string \<times> handlerType" where
  "classify allEvents allStates handlerName =
     (if HasPrefix handlerName ''before_'' then
        (let target = TrimPrefix handlerName ''before_'' in
         if target = ''event'' then ('''', beforeEvent)
         else if target \<in> allEvents then (target, beforeEvent)
         else (target, noHandler))
      else if HasPrefix handlerName ''leave_'' then
        (let target = TrimPrefix handlerName ''leave_'' in
         if target = ''state'' then ('''', leaveState)
         else if target \<in> allStates then (target, leaveState)
         else (target, noHandler))
      else if HasPrefix handlerName ''enter_'' then
        (let target = TrimPrefix handlerName ''enter_'' in
         if target = ''state'' then ('''', enterState)
         else if target \<in> allStates then (target, enterState)
         else (target, noHandler))
      else if HasPrefix handlerName ''after_'' then
        (let target = TrimPrefix handlerName ''after_'' in
         if target = ''event'' then ('''', afterEvent)
         else if target \<in> allEvents then (target, afterEvent)
         else (target, noHandler))
      else
        (let target = handlerName in
         if target \<in> allStates then (target, enterState)
         else if target \<in> allEvents then (target, afterEvent)
         else (target, noHandler)))"

text \<open>
  The second loop, over the caller's \<^verbatim>\<open>Handlers\<close> map. Go visits the entries of a map in
  an unspecified order; the list is the order of one run, and a later entry overwrites an
  earlier one stored under the same key.
\<close>

fun add_handlers ::
  "string set \<Rightarrow> string set \<Rightarrow> (string \<times> 'a Handler) list \<Rightarrow> (handlerKey \<rightharpoonup> 'a Handler)
    \<Rightarrow> (handlerKey \<rightharpoonup> 'a Handler)" where
  "add_handlers allEvents allStates [] hs = hs"
| "add_handlers allEvents allStates ((handlerName, handler) # rest) hs =
     (case classify allEvents allStates handlerName of
        (tgt, ty) \<Rightarrow>
          add_handlers allEvents allStates rest
            (if ty \<noteq> noHandler then hs(\<lparr>target = tgt, handlerType = ty\<rparr> \<mapsto> handler)
             else hs))"

definition NewStateMachine ::
  "string \<Rightarrow> EventDesc list \<Rightarrow> (string \<times> 'a Handler) list \<Rightarrow> 'a StateMachine" where
  "NewStateMachine initial events callbacks =
     (case add_events events ([], {}, {}) of
        (sts, allEvents, allStates) \<Rightarrow>
          \<lparr>current = initial,
           states = sts,
           handlers = add_handlers allEvents allStates callbacks Map.empty,
           startState = None\<rparr>)"

section \<open>Queries\<close>

definition Current :: "'a StateMachine \<Rightarrow> string" where
  "Current machine = current machine"

definition Is :: "'a StateMachine \<Rightarrow> string \<Rightarrow> bool" where
  "Is machine state = (state = current machine)"

definition Can :: "'a StateMachine \<Rightarrow> string \<Rightarrow> bool" where
  "Can machine eventName =
     (map_of (states machine) \<lparr>event = eventName, src = current machine\<rparr> \<noteq> None
      \<and> startState machine = None)"

definition Cannot :: "'a StateMachine \<Rightarrow> string \<Rightarrow> bool" where
  "Cannot machine eventName = (\<not> Can machine eventName)"

section \<open>Completing a transition\<close>

text \<open>
  \<^verbatim>\<open>if handler, ok := machine.handlers[key]; ok { handler(event) }\<close>, the form of every
  callback invocation inside the closure.
\<close>

definition invoke ::
  "'a StateMachine \<Rightarrow> handlerKey \<Rightarrow> 'a Event \<times> 'a step list \<Rightarrow> 'a Event \<times> 'a step list" where
  "invoke machine key = (\<lambda>(ev, tr).
     case handlers machine key of
       None \<Rightarrow> (ev, tr)
     | Some handler \<Rightarrow> (let ev' = handler ev in (ev', tr @ [Call key ev ev'])))"

text \<open>
  A call of the closure stored in \<^verbatim>\<open>startState\<close>: the assignment to
  \<^verbatim>\<open>machine.current\<close>, then the two enter callbacks and the two after callbacks. It returns
  the machine, the captured context as the callbacks leave it, and the log.
\<close>

definition startState_call ::
  "'a StateMachine \<Rightarrow> 'a closure \<Rightarrow> 'a StateMachine \<times> 'a Event \<times> 'a step list" where
  "startState_call machine c =
     (let machine' = machine\<lparr>current := c_dst c\<rparr>;
          r1 = invoke machine' \<lparr>target = current machine', handlerType = enterState\<rparr>
                 (c_event c, [SetCurrent (c_dst c)]);
          r2 = invoke machine' \<lparr>target = '''', handlerType = enterState\<rparr> r1;
          r3 = invoke machine' \<lparr>target = c_eventName c, handlerType = afterEvent\<rparr> r2;
          r4 = invoke machine' \<lparr>target = '''', handlerType = afterEvent\<rparr> r3
      in (machine', fst r4, snd r4))"

text \<open>
  \<^verbatim>\<open>Excute\<close>. Its Go result is the error alone; the model also returns what the call
  changes: the machine, the context captured by the closure it ran (\<open>None\<close> when there was
  none to run) and the log.
\<close>

definition Excute ::
  "'a StateMachine \<Rightarrow> error option \<times> 'a StateMachine \<times> 'a Event option \<times> 'a step list" where
  "Excute f =
     (case startState f of
        None \<Rightarrow> (Some NoTransitionInProgress, f, None, [])
      | Some c \<Rightarrow>
          (case startState_call f c of
             (f', ev, tr) \<Rightarrow> (None, f'\<lparr>startState := None\<rparr>, Some ev, tr)))"

section \<open>Firing an event\<close>

text \<open>
  \<^verbatim>\<open>Event\<close> is one Go function with early returns. It is split at its comments into
  stages, each of which either returns or goes on to the next; they are defined last stage
  first. Every stage returns the error, the machine and the log.

  The context is shared by reference between \<^verbatim>\<open>Event\<close> and the closure in
  \<^verbatim>\<open>startState\<close>. While the closure exists, a callback's change to the context is
  therefore written to the stored closure too.
\<close>

definition write_event :: "'a Event \<Rightarrow> 'a StateMachine \<Rightarrow> 'a StateMachine" where
  "write_event ev machine =
     machine\<lparr>startState := map_option (\<lambda>c. c\<lparr>c_event := ev\<rparr>) (startState machine)\<rparr>"

text \<open>
  The end of \<^verbatim>\<open>Event\<close>: \<^verbatim>\<open>err := machine.Excute()\<close>, the internal error when that
  fails, else \<^verbatim>\<open>return event.Err\<close>, read from the context as \<^verbatim>\<open>Excute\<close> left it.
\<close>

definition Event_complete ::
  "'a StateMachine \<Rightarrow> 'a Event \<Rightarrow> 'a step list \<Rightarrow> error option \<times> 'a StateMachine \<times> 'a step list"
  where
  "Event_complete machine ev tr =
     (case Excute machine of
        (err, machine', ev', tr') \<Rightarrow>
          if err \<noteq> None then (Some InternalError, machine', tr @ tr')
          else (Err (case ev' of None \<Rightarrow> ev | Some e \<Rightarrow> e), machine', tr @ tr'))"

text \<open>The general \<^verbatim>\<open>leave_\<close> handler, with its two checks inside the \<^verbatim>\<open>if ok\<close> block.\<close>

definition Event_leave_general ::
  "'a StateMachine \<Rightarrow> 'a Event \<Rightarrow> 'a step list \<Rightarrow> error option \<times> 'a StateMachine \<times> 'a step list"
  where
  "Event_leave_general machine ev tr =
     (case handlers machine \<lparr>target = '''', handlerType = leaveState\<rparr> of
        Some handler \<Rightarrow>
          (let ev' = handler ev;
               machine' = write_event ev' machine;
               tr' = tr @ [Call \<lparr>target = '''', handlerType = leaveState\<rparr> ev ev']
           in if canceled ev' then (Err ev', machine'\<lparr>startState := None\<rparr>, tr')
              else if async ev' then (Err ev', machine', tr')
              else Event_complete machine' ev' tr')
      | None \<Rightarrow> Event_complete machine ev tr)"

text \<open>The named \<^verbatim>\<open>leave_\<close> handler, looked up under the current state.\<close>

definition Event_leave_named ::
  "'a StateMachine \<Rightarrow> 'a Event \<Rightarrow> 'a step list \<Rightarrow> error option \<times> 'a StateMachine \<times> 'a step list"
  where
  "Event_leave_named machine ev tr =
     (case handlers machine \<lparr>target = current machine, handlerType = leaveState\<rparr> of
        Some handler \<Rightarrow>
          (let ev' = handler ev;
               machine' = write_event ev' machine;
               tr' = tr @ [Call \<lparr>target = current machine, handlerType = leaveState\<rparr> ev ev']
           in if canceled ev' then (Err ev', machine'\<lparr>startState := None\<rparr>, tr')
              else if async ev' then (Err ev', machine', tr')
              else Event_leave_general machine' ev' tr')
      | None \<Rightarrow> Event_leave_general machine ev tr)"

text \<open>The assignment \<^verbatim>\<open>machine.startState = func() {...}\<close> between the two phases.\<close>

definition Event_prepare ::
  "'a StateMachine \<Rightarrow> string \<Rightarrow> string \<Rightarrow> 'a Event \<Rightarrow> 'a step list
    \<Rightarrow> error option \<times> 'a StateMachine \<times> 'a step list" where
  "Event_prepare machine eventName dst ev tr =
     Event_leave_named
       (machine\<lparr>startState := Some \<lparr>c_dst = dst, c_eventName = eventName, c_event = ev\<rparr>\<rparr>)
       ev tr"

text \<open>The general \<^verbatim>\<open>before_\<close> handler.\<close>

definition Event_before_general ::
  "'a StateMachine \<Rightarrow> string \<Rightarrow> string \<Rightarrow> 'a Event \<Rightarrow> 'a step list
    \<Rightarrow> error option \<times> 'a StateMachine \<times> 'a step list" where
  "Event_before_general machine eventName dst ev tr =
     (case handlers machine \<lparr>target = '''', handlerType = beforeEvent\<rparr> of
        Some handler \<Rightarrow>
          (let ev' = handler ev;
               tr' = tr @ [Call \<lparr>target = '''', handlerType = beforeEvent\<rparr> ev ev']
           in if canceled ev' then (Err ev', machine, tr')
              else Event_prepare machine eventName dst ev' tr')
      | None \<Rightarrow> Event_prepare machine eventName dst ev tr)"

text \<open>The named \<^verbatim>\<open>before_\<close> handler, looked up under the event name.\<close>

definition Event_before_named ::
  "'a StateMachine \<Rightarrow> string \<Rightarrow> string \<Rightarrow> 'a Event \<Rightarrow> 'a step list
    \<Rightarrow> error option \<times> 'a StateMachine \<times> 'a step list" where
  "Event_before_named machine eventName dst ev tr =
     (case handlers machine \<lparr>target = eventName, handlerType = beforeEvent\<rparr> of
        Some handler \<Rightarrow>
          (let ev' = handler ev;
               tr' = tr @ [Call \<lparr>target = eventName, handlerType = beforeEvent\<rparr> ev ev']
           in if canceled ev' then (Err ev', machine, tr')
              else Event_before_general machine eventName dst ev' tr')
      | None \<Rightarrow> Event_before_general machine eventName dst ev tr)"

text \<open>
  The loop \<^verbatim>\<open>for state, _ := range machine.states\<close> that looks for any table entry of
  the event.
\<close>

fun event_found :: "string \<Rightarrow> (stateKey \<times> string) list \<Rightarrow> bool" where
  "event_found eventName [] = False"
| "event_found eventName ((state, dst) # rest) =
     (if event state = eventName then True else event_found eventName rest)"

text \<open>
  The method \<^verbatim>\<open>Event\<close> of the machine: the check for a transition in progress, the
  lookup with its two errors, the return for a destination equal to the current state, the
  new context, and then the stages above.
\<close>

definition StateMachine_Event ::
  "'a StateMachine \<Rightarrow> string \<Rightarrow> 'a list \<Rightarrow> error option \<times> 'a StateMachine \<times> 'a step list"
  where
  "StateMachine_Event machine eventName args =
     (if startState machine \<noteq> None then (Some (TransitionInProgress eventName), machine, [])
      else
        (case map_of (states machine) \<lparr>event = eventName, src = current machine\<rparr> of
           None \<Rightarrow>
             if event_found eventName (states machine)
             then (Some (IllegalTransition eventName (current machine)), machine, [])
             else (Some (UnknownEvent eventName), machine, [])
         | Some dst \<Rightarrow>
             if current machine = dst then (None, machine, [])
             else
               Event_before_named machine eventName dst
                 \<lparr>Name = eventName, Src = current machine, Dst = dst, Err = None,
                  Args = args, canceled = False, async = False\<rparr> []))"

section \<open>Reading a log\<close>

text \<open>
  The order of a run without the contexts: which key was invoked, and where
  \<^verbatim>\<open>machine.current\<close> was assigned.
\<close>

datatype mark = Invoked handlerKey | Assigned string

fun mark_of :: "'a step \<Rightarrow> mark" where
  "mark_of (Call key ev ev') = Invoked key"
| "mark_of (SetCurrent s) = Assigned s"

text \<open>The keys of a list that have a callback in the registry, in the order of the list.\<close>

definition registered :: "'a StateMachine \<Rightarrow> handlerKey list \<Rightarrow> handlerKey list" where
  "registered machine ks = filter (\<lambda>key. handlers machine key \<noteq> None) ks"

text \<open>
  A before or leave callback returned with the canceled flag set; a leave callback returned
  with the async flag set; a leave callback returned with the async flag set and the
  canceled flag clear; a before callback returned with the async flag set.
\<close>

fun cancel_seen :: "'a step \<Rightarrow> bool" where
  "cancel_seen (Call key ev ev') =
     ((handlerType key = beforeEvent \<or> handlerType key = leaveState) \<and> canceled ev')"
| "cancel_seen (SetCurrent s) = False"

fun defer_seen :: "'a step \<Rightarrow> bool" where
  "defer_seen (Call key ev ev') = (handlerType key = leaveState \<and> async ev')"
| "defer_seen (SetCurrent s) = False"

fun defer_only_seen :: "'a step \<Rightarrow> bool" where
  "defer_only_seen (Call key ev ev') =
     (handlerType key = leaveState \<and> async ev' \<and> \<not> canceled ev')"
| "defer_only_seen (SetCurrent s) = False"

fun before_async_seen :: "'a step \<Rightarrow> bool" where
  "before_async_seen (Call key ev ev') = (handlerType key = beforeEvent \<and> async ev')"
| "before_async_seen (SetCurrent s) = False"

section \<open>The naming rules as the specification words them\<close>

text \<open>
  The two sets that the first loop of \<^verbatim>\<open>NewStateMachine\<close> collects, as functions of
  the descriptors: every descriptor's name, and every source together with the destination
  of the descriptor it is a source of.
\<close>

definition allEvents_of :: "EventDesc list \<Rightarrow> string set" where
  "allEvents_of events = set (map EventDesc.Name events)"

definition allStates_of :: "EventDesc list \<Rightarrow> string set" where
  "allStates_of events =
     set (concat (map (\<lambda>d. concat (map (\<lambda>s. [s, EventDesc.Dst d]) (EventDesc.Src d))) events))"

text \<open>
  One prefixed rule of the specification: strip the prefix; the special suffix gives the
  generic key of the phase, a known name gives the named key, anything else gives no
  registration.
\<close>

definition spec_prefixed ::
  "string \<Rightarrow> handlerType \<Rightarrow> string \<Rightarrow> string set \<Rightarrow> string \<Rightarrow> (string \<times> handlerType) option"
  where
  "spec_prefixed pre phase special known raw =
     (let rest = drop (length pre) raw in
      if rest = special then Some ('''', phase)
      else if rest \<in> known then Some (rest, phase)
      else None)"

text \<open>
  The five rules in the order of the specification; \<open>None\<close> is ``no registration''.
\<close>

definition spec_classify ::
  "string set \<Rightarrow> string set \<Rightarrow> string \<Rightarrow> (string \<times> handlerType) option" where
  "spec_classify knownEvents knownStates raw =
     (if prefix ''before_'' raw then spec_prefixed ''before_'' beforeEvent ''event'' knownEvents raw
      else if prefix ''leave_'' raw then spec_prefixed ''leave_'' leaveState ''state'' knownStates raw
      else if prefix ''enter_'' raw then spec_prefixed ''enter_'' enterState ''state'' knownStates raw
      else if prefix ''after_'' raw then spec_prefixed ''after_'' afterEvent ''event'' knownEvents raw
      else if raw \<in> knownStates then Some (raw, enterState)
      else if raw \<in> knownEvents then Some (raw, afterEvent)
      else None)"

text \<open>
  A registry built by applying a naming rule to each raw name in turn, a later registration
  under a key replacing an earlier one.
\<close>

fun spec_registry ::
  "(string \<Rightarrow> (string \<times> handlerType) option) \<Rightarrow> (string \<times> 'a Handler) list
    \<Rightarrow> (handlerKey \<rightharpoonup> 'a Handler) \<Rightarrow> (handlerKey \<rightharpoonup> 'a Handler)" where
  "spec_registry rule [] hs = hs"
| "spec_registry rule ((raw, handler) # rest) hs =
     spec_registry rule rest
       (case rule raw of
          None \<Rightarrow> hs
        | Some (tgt, phase) \<Rightarrow> hs(\<lparr>target = tgt, handlerType = phase\<rparr> \<mapsto> handler))"

section \<open>The order of the callbacks as the specification words it\<close>

text \<open>
  The keys of the callbacks of one transition in the order the specification gives: before
  the assignment the named and the generic before callback and the named and the generic
  leave callback, after it the named and the generic enter callback and the named and the
  generic after callback.
\<close>

definition before_leave_keys :: "string \<Rightarrow> string \<Rightarrow> handlerKey list" where
  "before_leave_keys eventName source =
     [\<lparr>target = eventName, handlerType = beforeEvent\<rparr>,
      \<lparr>target = '''', handlerType = beforeEvent\<rparr>,
      \<lparr>target = source, handlerType = leaveState\<rparr>,
      \<lparr>target = '''', handlerType = leaveState\<rparr>]"

definition enter_after_keys :: "string \<Rightarrow> string \<Rightarrow> handlerKey list" where
  "enter_after_keys eventName destination =
     [\<lparr>target = destination, handlerType = enterState\<rparr>,
      \<lparr>target = '''', handlerType = enterState\<rparr>,
      \<lparr>target = eventName, handlerType = afterEvent\<rparr>,
      \<lparr>target = '''', handlerType = afterEvent\<rparr>]"

section \<open>Example machines\<close>

text \<open>
  A gate that is closed or opened. \<open>knock\<close> leads from \<open>closed\<close> to \<open>closed\<close>.
\<close>

definition gate_events :: "EventDesc list" where
  "gate_events =
     [\<lparr>EventDesc.Name = ''open'', Src = [''closed''], Dst = ''opened''\<rparr>,
      \<lparr>EventDesc.Name = ''close'', Src = [''opened''], Dst = ''closed''\<rparr>,
      \<lparr>EventDesc.Name = ''knock'', Src = [''closed''], Dst = ''closed''\<rparr>]"

text \<open>A callback that reports an error without cancelling, and one that does nothing.\<close>

definition fail_with :: "string \<Rightarrow> unit Handler" where
  "fail_with msg ev = ev\<lparr>Err := Some (CallbackError msg)\<rparr>"

definition quiet :: "unit Handler" where
  "quiet ev = ev"

definition gate :: "(string \<times> unit Handler) list \<Rightarrow> unit StateMachine" where
  "gate callbacks = NewStateMachine ''closed'' gate_events callbacks"

text \<open>
  Gates with callbacks: one with a do-nothing callback under each of the eight keys of the
  event \<open>open\<close>; one whose leave callback defers; one whose leave callback defers and
  whose after callback reports an error; one whose leave callback cancels; one whose leave
  callback sets both flags; one whose before callback calls \<^verbatim>\<open>Async\<close>, without and
  with a leave callback that does nothing.
\<close>

definition quiet_gate :: "unit StateMachine" where
  "quiet_gate =
     gate [(''before_open'', quiet), (''before_event'', quiet),
           (''leave_closed'', quiet), (''leave_state'', quiet),
           (''enter_opened'', quiet), (''enter_state'', quiet),
           (''after_open'', quiet), (''after_event'', quiet)]"

definition deferring_gate :: "unit StateMachine" where
  "deferring_gate =
     gate [(''leave_closed'', Async), (''enter_opened'', quiet), (''after_event'', quiet)]"

definition reporting_gate :: "unit StateMachine" where
  "reporting_gate = gate [(''leave_closed'', Async), (''after_open'', fail_with ''late'')]"

definition canceling_gate :: "unit StateMachine" where
  "canceling_gate = gate [(''leave_closed'', Cancel)]"

definition refusing_gate :: "unit StateMachine" where
  "refusing_gate = gate [(''leave_closed'', \<lambda>ev. Cancel (Async ev))]"

definition hasty_gate :: "unit StateMachine" where
  "hasty_gate = gate [(''before_open'', Async)]"

definition patient_gate :: "unit StateMachine" where
  "patient_gate = gate [(''before_open'', Async), (''leave_state'', quiet)]"

text \<open>The machine that a call of \<^verbatim>\<open>Event\<close> leaves behind.\<close>

definition after_Event :: "'a StateMachine \<Rightarrow> string \<Rightarrow> 'a StateMachine" where
  "after_Event machine eventName = fst (snd (StateMachine_Event machine eventName []))"


section \<open>Facts about the stages\<close>

lemma event_found_iff: "event_found n sts \<longleftrightarrow> n \<in> event ` fst ` set sts"
  by (induction n sts rule: event_found.induct) auto

lemma fst_startState_call: "fst (startState_call m c) = m\<lparr>current := c_dst c\<rparr>"
  by (simp add: startState_call_def Let_def)

lemma marks_invoke:
  "map mark_of (snd (invoke m k r)) = map mark_of (snd r) @ map Invoked (registered m [k])"
  by (cases r) (simp add: invoke_def registered_def Let_def split: option.splits)

lemma calls_invoke:
  "Call k e e' \<in> set (snd (invoke m k' r)) \<Longrightarrow> Call k e e' \<in> set (snd r) \<or> k = k'"
  by (cases r) (auto simp: invoke_def Let_def split: option.splits)

lemma registered_current [simp]: "registered (m\<lparr>current := s\<rparr>) ks = registered m ks"
  by (simp add: registered_def)

lemma registered_startState [simp]: "registered (m\<lparr>startState := s\<rparr>) ks = registered m ks"
  by (simp add: registered_def)

lemma registered_Cons: "registered m (k # ks) = registered m [k] @ registered m ks"
  by (simp add: registered_def)

lemma registered_None: "handlers m k = None \<Longrightarrow> registered m [k] = []"
  by (simp add: registered_def)

lemma registered_Some: "handlers m k = Some h \<Longrightarrow> registered m [k] = [k]"
  by (simp add: registered_def)

lemma marks_startState_call:
  "map mark_of (snd (snd (startState_call m c))) =
     Assigned (c_dst c) # map Invoked (registered m (enter_after_keys (c_eventName c) (c_dst c)))"
  unfolding startState_call_def Let_def enter_after_keys_def
  by (simp add: marks_invoke registered_Cons [of _ _ "_ # _"])

lemma SetCurrent_marks: "SetCurrent s \<in> set tr \<longleftrightarrow> Assigned s \<in> set (map mark_of tr)"
proof (induction tr)
  case Nil
  then show ?case by simp
next
  case (Cons a tr)
  then show ?case by (cases a) auto
qed

lemma SetCurrent_startState_call: "SetCurrent (c_dst c) \<in> set (snd (snd (startState_call m c)))"
  by (simp add: SetCurrent_marks marks_startState_call del: set_map)

lemma calls_startState_call:
  "handlerType k = leaveState \<Longrightarrow> Call k e e' \<notin> set (snd (snd (startState_call m c)))"
  unfolding startState_call_def Let_def
  by (auto dest!: calls_invoke)

lemma flags_invoke:
  "handlerType k \<noteq> beforeEvent \<Longrightarrow> handlerType k \<noteq> leaveState \<Longrightarrow>
   list_ex cancel_seen (snd (invoke m k r)) = list_ex cancel_seen (snd r) \<and>
   list_ex defer_seen (snd (invoke m k r)) = list_ex defer_seen (snd r) \<and>
   list_ex defer_only_seen (snd (invoke m k r)) = list_ex defer_only_seen (snd r) \<and>
   list_ex before_async_seen (snd (invoke m k r)) = list_ex before_async_seen (snd r)"
  by (cases r) (simp add: invoke_def Let_def split: option.splits)

lemma flags_startState_call:
  "\<not> list_ex cancel_seen (snd (snd (startState_call m c))) \<and>
   \<not> list_ex defer_seen (snd (snd (startState_call m c))) \<and>
   \<not> list_ex defer_only_seen (snd (snd (startState_call m c))) \<and>
   \<not> list_ex before_async_seen (snd (snd (startState_call m c)))"
  unfolding startState_call_def Let_def by (simp add: flags_invoke)

lemma defer_only_seenI:
  "list_ex defer_seen tr \<Longrightarrow> \<not> list_ex cancel_seen tr \<Longrightarrow> list_ex defer_only_seen tr"
proof (induction tr)
  case Nil
  then show ?case by simp
next
  case (Cons s tr)
  then show ?case by (cases s) auto
qed

lemma defer_only_seenD: "list_ex defer_only_seen tr \<Longrightarrow> list_ex defer_seen tr"
proof (induction tr)
  case Nil
  then show ?case by simp
next
  case (Cons s tr)
  then show ?case by (cases s) auto
qed

lemma Excute_pending:
  "startState f = Some c \<Longrightarrow>
   Excute f = (None, f\<lparr>current := c_dst c, startState := None\<rparr>,
               Some (fst (snd (startState_call f c))), snd (snd (startState_call f c)))"
  using fst_startState_call [of f c]
  by (cases "startState_call f c") (auto simp: Excute_def)

lemma Event_complete_pending:
  "startState m = Some c \<Longrightarrow>
   Event_complete m ev tr =
     (Err (fst (snd (startState_call m c))), m\<lparr>current := c_dst c, startState := None\<rparr>,
      tr @ snd (snd (startState_call m c)))"
  by (simp add: Event_complete_def Excute_pending)

lemma Event_fires:
  "startState m = None \<Longrightarrow> map_of (states m) \<lparr>event = n, src = current m\<rparr> = Some dst \<Longrightarrow>
   dst \<noteq> current m \<Longrightarrow>
   StateMachine_Event m n args =
     Event_before_named m n dst
       \<lparr>Name = n, Src = current m, Dst = dst, Err = None, Args = args,
        canceled = False, async = False\<rparr> []"
  by (auto simp: StateMachine_Event_def)

lemma Event_cases:
  "snd (StateMachine_Event m n args) = (m, []) \<or>
   (\<exists>dst. startState m = None \<and> map_of (states m) \<lparr>event = n, src = current m\<rparr> = Some dst \<and>
      dst \<noteq> current m \<and>
      StateMachine_Event m n args =
        Event_before_named m n dst
          \<lparr>Name = n, Src = current m, Dst = dst, Err = None, Args = args,
           canceled = False, async = False\<rparr> [])"
  by (auto simp: StateMachine_Event_def split: option.splits)

lemmas stage_defs =
  Event_before_named_def Event_before_general_def Event_prepare_def
  Event_leave_named_def Event_leave_general_def write_event_def

text \<open>
  What a run of the stages does, by what its log shows. Each proof follows every path
  through the four lookups and the checks after the callbacks.
\<close>

lemma canceled_run:
  assumes "startState m = None"
    and "Event_before_named m n dst ev [] = (err, m', tr)"
    and "list_ex cancel_seen tr"
  shows "m' = m"
  using assms flags_startState_call
  by (auto simp: stage_defs Event_complete_pending Let_def split: option.splits if_splits)

lemma leave_canceled_run:
  assumes "startState m = None"
    and "Event_before_named m n dst ev [] = (err, m', tr)"
    and "Call k e e' \<in> set tr" and "handlerType k = leaveState" and "canceled e'"
  shows "m' = m \<and> err = Err e'"
  using assms
  by (auto simp: stage_defs Event_complete_pending calls_startState_call Let_def
      split: option.splits if_splits)

lemma pending_run:
  assumes "startState m = None"
    and "Event_before_named m n dst ev [] = (err, m', tr)"
  shows "startState m' \<noteq> None \<longleftrightarrow> list_ex defer_only_seen tr"
  using assms flags_startState_call
  by (auto simp: stage_defs Event_complete_pending Let_def split: option.splits if_splits)

lemma deferred_run:
  assumes "startState m = None"
    and "Event_before_named m n dst ev [] = (err, m', tr)"
    and "list_ex defer_only_seen tr"
  shows "\<exists>ev'. m' = m\<lparr>startState := Some \<lparr>c_dst = dst, c_eventName = n, c_event = ev'\<rparr>\<rparr>
           \<and> err = Err ev'"
  using assms flags_startState_call
  by (auto simp: stage_defs Event_complete_pending Let_def split: option.splits if_splits)

lemma unfinished_run_marks:
  assumes "startState m = None"
    and "Event_before_named m n dst ev [] = (err, m', tr)"
    and "list_ex cancel_seen tr \<or> list_ex defer_only_seen tr"
  shows "prefix (map mark_of tr)
           (map Invoked (registered m [\<lparr>target = n, handlerType = beforeEvent\<rparr>]) @
            map Invoked (registered m [\<lparr>target = '''', handlerType = beforeEvent\<rparr>]) @
            map Invoked (registered m [\<lparr>target = current m, handlerType = leaveState\<rparr>]) @
            map Invoked (registered m [\<lparr>target = '''', handlerType = leaveState\<rparr>]))"
  using assms flags_startState_call
  by (auto simp: stage_defs Event_complete_pending registered_None registered_Some Let_def
      split: option.splits if_splits)

lemma sync_run:
  assumes "startState m = None"
    and "Event_before_named m n dst ev [] = (err, m', tr)"
    and "\<not> list_ex cancel_seen tr" and "\<not> list_ex defer_seen tr"
  shows "m' = m\<lparr>current := dst, startState := None\<rparr> \<and>
         map mark_of tr =
           map Invoked (registered m [\<lparr>target = n, handlerType = beforeEvent\<rparr>]) @
           map Invoked (registered m [\<lparr>target = '''', handlerType = beforeEvent\<rparr>]) @
           map Invoked (registered m [\<lparr>target = current m, handlerType = leaveState\<rparr>]) @
           map Invoked (registered m [\<lparr>target = '''', handlerType = leaveState\<rparr>]) @
           Assigned dst # map Invoked (registered m (enter_after_keys n dst))"
  using assms
  by (auto simp: stage_defs Event_complete_pending marks_startState_call
      registered_None registered_Some Let_def split: option.splits if_splits)

lemma no_leave_run:
  assumes "startState m = None"
    and "Event_before_named m n dst ev [] = (err, m', tr)"
    and "handlers m \<lparr>target = current m, handlerType = leaveState\<rparr> = None"
    and "handlers m \<lparr>target = '''', handlerType = leaveState\<rparr> = None"
    and "\<not> list_ex cancel_seen tr"
  shows "m' = m\<lparr>current := dst, startState := None\<rparr> \<and> SetCurrent dst \<in> set tr"
  using assms SetCurrent_startState_call
    [of "\<lparr>c_dst = dst, c_eventName = n, c_event = e\<rparr>" for e]
  by (auto simp: stage_defs Event_complete_pending Let_def split: option.splits if_splits)

lemma idle_leave_run:
  assumes "startState m = None"
    and "Event_before_named m n dst ev [] = (err, m', tr)"
    and "\<not> canceled ev"
    and "Call k e e \<in> set tr" and "handlerType k = leaveState" and "async e"
  shows "startState m' \<noteq> None \<and> current m' = current m"
  using assms
  by (auto simp: stage_defs Event_complete_pending calls_startState_call Let_def
      split: option.splits if_splits)

section \<open>Facts about the construction\<close>

lemma HasPrefix_prefix: "HasPrefix s p \<longleftrightarrow> prefix p s"
  unfolding HasPrefix_def by (metis append_eq_conv_conj prefix_def take_is_prefix)

lemma classify_spec:
  "spec_classify E S raw =
     (case classify E S raw of (tgt, ty) \<Rightarrow> if ty \<noteq> noHandler then Some (tgt, ty) else None)"
  by (simp add: spec_classify_def classify_def spec_prefixed_def HasPrefix_prefix
      TrimPrefix_def Let_def)

lemma add_handlers_spec:
  "add_handlers E S cbs hs = spec_registry (spec_classify E S) cbs hs"
proof (induction cbs arbitrary: hs)
  case Nil
  then show ?case by simp
next
  case (Cons cb cbs)
  obtain raw h where cb: "cb = (raw, h)" by (cases cb)
  obtain tgt ty where c: "classify E S raw = (tgt, ty)" by (cases "classify E S raw")
  show ?case
  proof (cases "ty = noHandler")
    case True
    with c have "spec_classify E S raw = None" by (simp add: classify_spec)
    with c True show ?thesis by (simp add: cb Cons.IH)
  next
    case False
    with c have "spec_classify E S raw = Some (tgt, ty)" by (simp add: classify_spec)
    with c False show ?thesis by (simp add: cb Cons.IH)
  qed
qed

lemma add_sources_sets:
  "snd (add_sources name dst ss (sts, A)) = A \<union> set (concat (map (\<lambda>s. [s, dst]) ss))"
  by (induction ss arbitrary: sts A) auto

lemma add_events_sets:
  "snd (add_events ds (sts, E, A)) = (E \<union> allEvents_of ds, A \<union> allStates_of ds)"
proof (induction ds arbitrary: sts E A)
  case Nil
  then show ?case by (simp add: allEvents_of_def allStates_of_def)
next
  case (Cons d ds)
  show ?case
    using add_sources_sets [of "EventDesc.Name d" "EventDesc.Dst d" "EventDesc.Src d" sts A]
    by (cases "add_sources (EventDesc.Name d) (EventDesc.Dst d) (EventDesc.Src d) (sts, A)")
      (auto simp: Cons.IH allEvents_of_def allStates_of_def)
qed

section \<open>The example machines, evaluated\<close>

lemma gate_states:
  "states (gate cbs) =
     [(\<lparr>event = ''open'', src = ''closed''\<rparr>, ''opened''),
      (\<lparr>event = ''close'', src = ''opened''\<rparr>, ''closed''),
      (\<lparr>event = ''knock'', src = ''closed''\<rparr>, ''closed'')]"
  by (simp add: gate_def NewStateMachine_def gate_events_def)

lemma gate_current: "current (gate cbs) = ''closed''"
  by (simp add: gate_def NewStateMachine_def split: prod.splits)

lemma gate_startState: "startState (gate cbs) = None"
  by (simp add: gate_def NewStateMachine_def split: prod.splits)

lemma gate_handlers:
  "handlers (gate cbs) =
     add_handlers {''open'', ''close'', ''knock''} {''closed'', ''opened''} cbs Map.empty"
  by (simp add: gate_def NewStateMachine_def gate_events_def insert_commute)

lemmas gate_simps = gate_states gate_current gate_startState gate_handlers

lemmas run_simps =
  after_Event_def StateMachine_Event_def gate_simps stage_defs classify_def HasPrefix_def
  TrimPrefix_def Async_def Cancel_def quiet_def fail_with_def Let_def Event_complete_def
  Excute_def startState_call_def invoke_def registered_def before_leave_keys_def
  enter_after_keys_def

lemma pending_gate:
  "after_Event (gate [(''leave_closed'', Async)]) ''open'' =
     (gate [(''leave_closed'', Async)])
       \<lparr>startState := Some \<lparr>c_dst = ''opened'', c_eventName = ''open'',
           c_event = \<lparr>Name = ''open'', Src = ''closed'', Dst = ''opened'', Err = None,
             Args = [], canceled = False, async = True\<rparr>\<rparr>\<rparr>"
  by (simp add: run_simps)

section \<open>The order of the callbacks\<close>

text \<open>
  C1. Take a call of \<^verbatim>\<open>Event\<close> with nothing pending whose table entry leads from the
  current state to a different state \<open>dst\<close>, and in which no before or leave callback
  returned with the canceled flag set and no leave callback returned with the async flag
  set. Then the call ends with \<open>dst\<close> as the current state and nothing pending, and its
  log, read without the contexts, is: the callbacks registered under the named before key,
  the generic before key, the leave key of the source state and the generic leave key, in
  this order; the assignment of \<open>dst\<close> to the current state; the callbacks registered
  under the enter key of \<open>dst\<close>, the generic enter key, the named after key and the
  generic after key, in this order. A key without a callback contributes nothing.
\<close>

theorem synchronous_callback_order:
  assumes "startState m = None"
    and "map_of (states m) \<lparr>event = n, src = current m\<rparr> = Some dst"
    and "dst \<noteq> current m"
    and "StateMachine_Event m n args = (err, m', tr)"
    and "\<not> list_ex cancel_seen tr" and "\<not> list_ex defer_seen tr"
  shows "current m' = dst \<and> startState m' = None \<and>
         map mark_of tr =
           map Invoked (registered m (before_leave_keys n (current m))) @
           Assigned dst # map Invoked (registered m (enter_after_keys n dst))"
proof -
  from assms(1-4) have
    "Event_before_named m n dst
       \<lparr>Name = n, Src = current m, Dst = dst, Err = None, Args = args,
        canceled = False, async = False\<rparr> [] = (err, m', tr)"
    by (simp add: Event_fires)
  from sync_run [OF assms(1) this assms(5,6)] show ?thesis
    by (simp add: before_leave_keys_def registered_Cons [of _ _ "_ # _"])
qed

theorem synchronous_callback_order_witness:
  "current (after_Event quiet_gate ''open'') = ''opened'' \<and>
   map mark_of (snd (snd (StateMachine_Event quiet_gate ''open'' []))) =
     [Invoked \<lparr>target = ''open'', handlerType = beforeEvent\<rparr>,
      Invoked \<lparr>target = '''', handlerType = beforeEvent\<rparr>,
      Invoked \<lparr>target = ''closed'', handlerType = leaveState\<rparr>,
      Invoked \<lparr>target = '''', handlerType = leaveState\<rparr>,
      Assigned ''opened'',
      Invoked \<lparr>target = ''opened'', handlerType = enterState\<rparr>,
      Invoked \<lparr>target = '''', handlerType = enterState\<rparr>,
      Invoked \<lparr>target = ''open'', handlerType = afterEvent\<rparr>,
      Invoked \<lparr>target = '''', handlerType = afterEvent\<rparr>]"
  using synchronous_callback_order
    [of quiet_gate "''open''" "''opened''" "[]"
        "fst (StateMachine_Event quiet_gate ''open'' [])"
        "fst (snd (StateMachine_Event quiet_gate ''open'' []))"
        "snd (snd (StateMachine_Event quiet_gate ''open'' []))"]
  by (simp add: quiet_gate_def run_simps)

section \<open>Deferred transitions\<close>

text \<open>
  C2. Take a call of \<^verbatim>\<open>Event\<close> with nothing pending, for an event whose table entry
  under the current state gives \<open>dst\<close>, in which a leave callback returned with the async
  flag set and no before or leave callback returned with the canceled flag set. Then the
  call leaves the current state as it was and leaves a closure in \<open>startState\<close>; it
  invoked callbacks under before and leave keys only, an initial part of their order. A call
  of \<^verbatim>\<open>Excute\<close> on the machine it left returns \<open>nil\<close>, makes \<open>dst\<close> the current
  state, empties \<open>startState\<close>, and its log is the assignment followed by the callbacks
  registered under the enter key of \<open>dst\<close>, the generic enter key, the named after key and
  the generic after key, each once and in this order.
\<close>

theorem deferred_then_Excute:
  assumes "startState m = None"
    and "map_of (states m) \<lparr>event = n, src = current m\<rparr> = Some dst"
    and "StateMachine_Event m n args = (err, m', tr)"
    and "list_ex defer_seen tr" and "\<not> list_ex cancel_seen tr"
    and "Excute m' = (err2, m'', ev2, tr2)"
  shows "current m' = current m \<and> startState m' \<noteq> None \<and>
         prefix (map mark_of tr) (map Invoked (registered m (before_leave_keys n (current m)))) \<and>
         err2 = None \<and> current m'' = dst \<and> startState m'' = None \<and>
         map mark_of tr2 = Assigned dst # map Invoked (registered m (enter_after_keys n dst))"
proof -
  have d: "list_ex defer_only_seen tr"
    using assms(4,5) by (rule defer_only_seenI)
  have "tr \<noteq> []"
    using assms(4) by auto
  with Event_cases [of m n args] assms(2,3) have run:
    "Event_before_named m n dst
       \<lparr>Name = n, Src = current m, Dst = dst, Err = None, Args = args,
        canceled = False, async = False\<rparr> [] = (err, m', tr)"
    by auto
  from deferred_run [OF assms(1) run d] obtain ev' where
    m': "m' = m\<lparr>startState := Some \<lparr>c_dst = dst, c_eventName = n, c_event = ev'\<rparr>\<rparr>"
    by blast
  have p: "prefix (map mark_of tr) (map Invoked (registered m (before_leave_keys n (current m))))"
    using unfinished_run_marks [OF assms(1) run] d
    by (simp add: before_leave_keys_def registered_Cons [of _ _ "_ # _"])
  have "startState m' = Some \<lparr>c_dst = dst, c_eventName = n, c_event = ev'\<rparr>"
    by (simp add: m')
  from Excute_pending [OF this] assms(6) have
    "err2 = None" and "m'' = m'\<lparr>current := dst, startState := None\<rparr>" and
    "tr2 = snd (snd (startState_call m' \<lparr>c_dst = dst, c_eventName = n, c_event = ev'\<rparr>))"
    by simp_all
  then show ?thesis
    using p by (simp add: m' marks_startState_call)
qed

theorem deferred_then_Excute_witness:
  "current (after_Event deferring_gate ''open'') = ''closed'' \<and>
   startState (after_Event deferring_gate ''open'') \<noteq> None \<and>
   current (fst (snd (Excute (after_Event deferring_gate ''open'')))) = ''opened'' \<and>
   startState (fst (snd (Excute (after_Event deferring_gate ''open'')))) = None \<and>
   map mark_of (snd (snd (snd (Excute (after_Event deferring_gate ''open''))))) =
     [Assigned ''opened'',
      Invoked \<lparr>target = ''opened'', handlerType = enterState\<rparr>,
      Invoked \<lparr>target = '''', handlerType = afterEvent\<rparr>]"
  using deferred_then_Excute
    [of deferring_gate "''open''" "''opened''" "[]"
        "fst (StateMachine_Event deferring_gate ''open'' [])"
        "after_Event deferring_gate ''open''"
        "snd (snd (StateMachine_Event deferring_gate ''open'' []))"
        "fst (Excute (after_Event deferring_gate ''open''))"
        "fst (snd (Excute (after_Event deferring_gate ''open'')))"
        "fst (snd (snd (Excute (after_Event deferring_gate ''open''))))"
        "snd (snd (snd (Excute (after_Event deferring_gate ''open''))))"]
  by (simp add: deferring_gate_def run_simps)

text \<open>
  C3, as the specification states it, fails on the gate whose leave callback defers and
  whose after callback stores an error in the context: after \<^verbatim>\<open>Event\<close> has left the
  transition pending, \<^verbatim>\<open>Excute\<close> returns \<open>nil\<close>, while the field \<open>Err\<close> of the
  context it ran the callbacks on holds the error of the after callback.
\<close>

theorem Excute_does_not_return_Err:
  "startState (after_Event reporting_gate ''open'') \<noteq> None \<and>
   fst (Excute (after_Event reporting_gate ''open'')) = None \<and>
   map_option Err (fst (snd (snd (Excute (after_Event reporting_gate ''open''))))) =
     Some (Some (CallbackError ''late''))"
  by (simp add: reporting_gate_def run_simps)

text \<open>
  C3, amended. With nothing pending \<^verbatim>\<open>Excute\<close> returns ``startState inappropriate
  because no state change in progress'' and leaves the machine as it was, without invoking
  a callback. With a closure pending it runs the closure (the assignment of the closure's
  destination and then the enter and after callbacks, in order), empties \<open>startState\<close> and
  returns \<open>nil\<close>, whatever the callbacks stored in the field \<open>Err\<close> of the context.
\<close>

theorem Excute_result:
  "(startState f = None \<longrightarrow> Excute f = (Some NoTransitionInProgress, f, None, [])) \<and>
   (startState f = Some c \<longrightarrow>
      fst (Excute f) = None \<and>
      fst (snd (Excute f)) = f\<lparr>current := c_dst c, startState := None\<rparr> \<and>
      map mark_of (snd (snd (snd (Excute f)))) =
        Assigned (c_dst c) #
          map Invoked (registered f (enter_after_keys (c_eventName c) (c_dst c))))"
  by (simp add: Excute_pending marks_startState_call) (simp add: Excute_def)

theorem Excute_result_witness:
  "Excute (gate []) = (Some NoTransitionInProgress, gate [], None, []) \<and>
   fst (Excute (after_Event reporting_gate ''open'')) = None \<and>
   current (fst (snd (Excute (after_Event reporting_gate ''open'')))) = ''opened'' \<and>
   startState (fst (snd (Excute (after_Event reporting_gate ''open'')))) = None"
  using Excute_result [of "gate []" undefined]
    Excute_result [of "after_Event reporting_gate ''open''"
      "\<lparr>c_dst = ''opened'', c_eventName = ''open'',
        c_event = \<lparr>Name = ''open'', Src = ''closed'', Dst = ''opened'', Err = None,
          Args = [], canceled = False, async = True\<rparr>\<rparr>"]
  by (simp add: reporting_gate_def run_simps)

section \<open>Failing calls\<close>

text \<open>
  C4. A call of \<^verbatim>\<open>Event\<close> that is rejected because a transition is pending, or
  because the table has no entry for the event under the current state (the unknown event
  and the inappropriate event), or in which a before or leave callback returned with the
  canceled flag set, leaves the whole machine, and so the current state, as it was. A call
  of \<^verbatim>\<open>Event\<close> after which the current state differs had nothing pending, found the new
  current state in the table, assigned it, left nothing pending, and no callback of it
  cancelled or deferred: it is a completed transition. A call of \<^verbatim>\<open>Excute\<close> after
  which the current state differs found a pending closure and assigned its destination.
\<close>

theorem failed_Event_keeps_current:
  assumes "StateMachine_Event m n args = (err, m', tr)"
  shows "(startState m \<noteq> None \<or> map_of (states m) \<lparr>event = n, src = current m\<rparr> = None
            \<or> list_ex cancel_seen tr \<longrightarrow> m' = m) \<and>
         (current m' \<noteq> current m \<longrightarrow>
            startState m = None \<and>
            map_of (states m) \<lparr>event = n, src = current m\<rparr> = Some (current m') \<and>
            SetCurrent (current m') \<in> set tr \<and> startState m' = None \<and>
            \<not> list_ex cancel_seen tr \<and> \<not> list_ex defer_seen tr) \<and>
         (current (fst (snd (Excute m))) \<noteq> current m \<longrightarrow>
            map_option c_dst (startState m) = Some (current (fst (snd (Excute m)))))"
proof -
  have third:
    "current (fst (snd (Excute m))) \<noteq> current m \<longrightarrow>
       map_option c_dst (startState m) = Some (current (fst (snd (Excute m))))"
    by (cases "startState m") (simp_all add: Excute_pending, simp add: Excute_def)
  from Event_cases [of m n args] show ?thesis
  proof
    assume "snd (StateMachine_Event m n args) = (m, [])"
    with assms have "m' = m" and "tr = []"
      by simp_all
    with third show ?thesis
      by simp
  next
    assume "\<exists>dst. startState m = None \<and>
        map_of (states m) \<lparr>event = n, src = current m\<rparr> = Some dst \<and> dst \<noteq> current m \<and>
        StateMachine_Event m n args =
          Event_before_named m n dst
            \<lparr>Name = n, Src = current m, Dst = dst, Err = None, Args = args,
             canceled = False, async = False\<rparr> []"
    then obtain dst where idle: "startState m = None"
      and entry: "map_of (states m) \<lparr>event = n, src = current m\<rparr> = Some dst"
      and run: "Event_before_named m n dst
            \<lparr>Name = n, Src = current m, Dst = dst, Err = None, Args = args,
             canceled = False, async = False\<rparr> [] = (err, m', tr)"
      using assms by auto
    have first: "list_ex cancel_seen tr \<longrightarrow> m' = m"
      using canceled_run [OF idle run] by simp
    have second:
      "current m' \<noteq> current m \<longrightarrow>
         current m' = dst \<and> SetCurrent dst \<in> set tr \<and> startState m' = None \<and>
         \<not> list_ex cancel_seen tr \<and> \<not> list_ex defer_seen tr"
    proof
      assume changed: "current m' \<noteq> current m"
      have nc: "\<not> list_ex cancel_seen tr"
        using first changed by auto
      have nd: "\<not> list_ex defer_seen tr"
      proof
        assume "list_ex defer_seen tr"
        then have "list_ex defer_only_seen tr"
          using nc by (rule defer_only_seenI)
        from deferred_run [OF idle run this] changed show False
          by auto
      qed
      from sync_run [OF idle run nc nd] have
        "m' = m\<lparr>current := dst, startState := None\<rparr>" and
        "Assigned dst \<in> set (map mark_of tr)"
        by simp_all
      then show "current m' = dst \<and> SetCurrent dst \<in> set tr \<and> startState m' = None \<and>
         \<not> list_ex cancel_seen tr \<and> \<not> list_ex defer_seen tr"
        using nc nd by (simp add: SetCurrent_marks del: set_map)
    qed
    from first second third idle entry show ?thesis
      by auto
  qed
qed

theorem failed_Event_keeps_current_witness:
  "list_ex cancel_seen (snd (snd (StateMachine_Event canceling_gate ''open'' []))) \<and>
   after_Event canceling_gate ''open'' = canceling_gate \<and>
   current (after_Event canceling_gate ''open'') = ''closed'' \<and>
   current (after_Event (gate []) ''open'') = ''opened'' \<and>
   SetCurrent ''opened'' \<in> set (snd (snd (StateMachine_Event (gate []) ''open'' [])))"
  using failed_Event_keeps_current
    [of canceling_gate "''open''" "[]"
        "fst (StateMachine_Event canceling_gate ''open'' [])"
        "after_Event canceling_gate ''open''"
        "snd (snd (StateMachine_Event canceling_gate ''open'' []))"]
    failed_Event_keeps_current
    [of "gate []" "''open''" "[]"
        "fst (StateMachine_Event (gate []) ''open'' [])"
        "after_Event (gate []) ''open''"
        "snd (snd (StateMachine_Event (gate []) ''open'' []))"]
  by (simp add: canceling_gate_def run_simps)

text \<open>
  C5. While a transition is pending, that is while \<open>startState\<close> holds a closure, a
  call of \<^verbatim>\<open>Event\<close> with any event name and any arguments returns the error ``event
  \<dots> inappropriate because previous startState did not complete'', leaves the whole
  machine, and with it the current state and the pending closure, as it was, and invokes no
  callback: its log is empty.
\<close>

theorem Event_while_pending:
  "startState m \<noteq> None \<Longrightarrow>
   StateMachine_Event m n args = (Some (TransitionInProgress n), m, [])"
  by (simp add: StateMachine_Event_def)

theorem Event_while_pending_witness:
  "startState (after_Event (gate [(''leave_closed'', Async)]) ''open'') \<noteq> None \<and>
   StateMachine_Event (after_Event (gate [(''leave_closed'', Async)]) ''open'') ''close'' [] =
     (Some (TransitionInProgress ''close''),
      after_Event (gate [(''leave_closed'', Async)]) ''open'', [])"
  using Event_while_pending
    [of "after_Event (gate [(''leave_closed'', Async)]) ''open''" "''close''" "[]"]
  by (simp add: pending_gate)

text \<open>
  C6. With no transition pending and no table entry for the event under the current state,
  \<^verbatim>\<open>Event\<close> returns ``event \<dots> inappropriate in current state \<dots>'' when some
  table entry carries the event name and ``event \<dots> does not exist'' when none does; in
  both cases the machine is unchanged and no callback is invoked.
\<close>

theorem Event_without_entry:
  "startState m = None \<Longrightarrow>
   map_of (states m) \<lparr>event = n, src = current m\<rparr> = None \<Longrightarrow>
   StateMachine_Event m n args =
     (Some (if n \<in> event ` fst ` set (states m)
            then IllegalTransition n (current m) else UnknownEvent n), m, [])"
  by (simp add: StateMachine_Event_def event_found_iff)

theorem Event_without_entry_witness:
  "StateMachine_Event (gate []) ''close'' [] =
     (Some (IllegalTransition ''close'' ''closed''), gate [], []) \<and>
   StateMachine_Event (gate []) ''lock'' [] = (Some (UnknownEvent ''lock''), gate [], [])"
  using Event_without_entry [of "gate []" "''close''" "[]"]
    Event_without_entry [of "gate []" "''lock''" "[]"]
  by (simp add: gate_states gate_current gate_startState)

text \<open>
  C7. With no transition pending and a table entry that leads from the current state to the
  current state, \<^verbatim>\<open>Event\<close> returns \<open>nil\<close>, leaves the whole machine as it was (the
  current state is unchanged and nothing is pending) and invokes no callback, whatever
  callbacks the registry holds.
\<close>

theorem Event_to_current_state:
  "startState m = None \<Longrightarrow>
   map_of (states m) \<lparr>event = n, src = current m\<rparr> = Some (current m) \<Longrightarrow>
   StateMachine_Event m n args = (None, m, [])"
  by (simp add: StateMachine_Event_def)

theorem Event_to_current_state_witness:
  "handlers (gate [(''before_event'', quiet), (''leave_state'', quiet),
                   (''enter_state'', quiet), (''after_event'', quiet)])
     \<lparr>target = '''', handlerType = beforeEvent\<rparr> \<noteq> None \<and>
   StateMachine_Event
     (gate [(''before_event'', quiet), (''leave_state'', quiet),
            (''enter_state'', quiet), (''after_event'', quiet)]) ''knock'' [] =
     (None,
      gate [(''before_event'', quiet), (''leave_state'', quiet),
            (''enter_state'', quiet), (''after_event'', quiet)], [])"
  using Event_to_current_state
    [of "gate [(''before_event'', quiet), (''leave_state'', quiet),
               (''enter_state'', quiet), (''after_event'', quiet)]" "''knock''" "[]"]
  by (simp add: gate_simps classify_def HasPrefix_def TrimPrefix_def)

section \<open>The naming of the callbacks\<close>

text \<open>
  C8. The registry that \<^verbatim>\<open>NewStateMachine\<close> builds is the registry that the naming
  rules of the specification give, applied to each raw name in turn. The known event names
  are the names of the descriptors; the known state names are the sources of the
  descriptors and the destinations of the descriptors that have a source. \<open>before_\<close> and
  \<open>after_\<close> with the suffix \<open>event\<close> give the generic key of the phase and with a known
  event name the named key; \<open>leave_\<close> and \<open>enter_\<close> likewise with the suffix
  \<open>state\<close> and the known state names; a name without one of the four prefixes gives the
  named enter key when it is a known state and otherwise the named after key when it is a
  known event; every other name registers nothing.
\<close>

theorem registry_follows_naming_rules:
  "handlers (NewStateMachine initial events callbacks) =
     spec_registry (spec_classify (allEvents_of events) (allStates_of events)) callbacks
       Map.empty"
  using add_events_sets [of events "[]" "{}" "{}"]
  by (cases "add_events events ([], {}, {})")
    (simp add: NewStateMachine_def add_handlers_spec)

theorem registry_follows_naming_rules_witness:
  "handlers (gate [(''closed'', quiet), (''open'', fail_with ''x''), (''enter_attic'', quiet),
                   (''leave_state'', quiet)])
     \<lparr>target = ''closed'', handlerType = enterState\<rparr> = Some quiet \<and>
   handlers (gate [(''closed'', quiet), (''open'', fail_with ''x''), (''enter_attic'', quiet),
                   (''leave_state'', quiet)])
     \<lparr>target = ''open'', handlerType = afterEvent\<rparr> = Some (fail_with ''x'') \<and>
   handlers (gate [(''closed'', quiet), (''open'', fail_with ''x''), (''enter_attic'', quiet),
                   (''leave_state'', quiet)])
     \<lparr>target = ''attic'', handlerType = enterState\<rparr> = None \<and>
   handlers (gate [(''closed'', quiet), (''open'', fail_with ''x''), (''enter_attic'', quiet),
                   (''leave_state'', quiet)])
     \<lparr>target = '''', handlerType = leaveState\<rparr> = Some quiet"
  using registry_follows_naming_rules
    [of "''closed''" gate_events
        "[(''closed'', quiet), (''open'', fail_with ''x''), (''enter_attic'', quiet),
          (''leave_state'', quiet)]"]
  by (simp add: gate_def gate_events_def allEvents_of_def allStates_of_def
      spec_classify_def spec_prefixed_def)

section \<open>The two flags in the leave phase\<close>

text \<open>
  C9. Take a call of \<^verbatim>\<open>Event\<close> with nothing pending. If a leave callback of it
  returned with the canceled flag set, whether or not the async flag is set as well, then
  the call returns the field \<open>Err\<close> of the context as that callback left it, and leaves
  the whole machine as it was: no closure stays in \<open>startState\<close> and the current state is
  unchanged. A closure is pending after the call exactly when a leave callback returned with
  the async flag set and the canceled flag clear.
\<close>

theorem leave_cancel_before_defer:
  assumes "startState m = None"
    and "StateMachine_Event m n args = (err, m', tr)"
  shows "(Call k e e' \<in> set tr \<and> handlerType k = leaveState \<and> canceled e' \<longrightarrow>
            err = Err e' \<and> startState m' = None \<and> current m' = current m \<and> m' = m) \<and>
         (startState m' \<noteq> None \<longleftrightarrow> list_ex defer_only_seen tr)"
  using Event_cases [of m n args]
proof
  assume "snd (StateMachine_Event m n args) = (m, [])"
  with assms show ?thesis
    by simp
next
  assume "\<exists>dst. startState m = None \<and>
      map_of (states m) \<lparr>event = n, src = current m\<rparr> = Some dst \<and> dst \<noteq> current m \<and>
      StateMachine_Event m n args =
        Event_before_named m n dst
          \<lparr>Name = n, Src = current m, Dst = dst, Err = None, Args = args,
           canceled = False, async = False\<rparr> []"
  then obtain dst where
    run: "Event_before_named m n dst
          \<lparr>Name = n, Src = current m, Dst = dst, Err = None, Args = args,
           canceled = False, async = False\<rparr> [] = (err, m', tr)"
    using assms by auto
  show ?thesis
    using leave_canceled_run [OF assms(1) run, of k e e'] pending_run [OF assms(1) run] assms(1)
    by auto
qed

theorem leave_cancel_before_defer_witness:
  "Call \<lparr>target = ''closed'', handlerType = leaveState\<rparr>
     \<lparr>Name = ''open'', Src = ''closed'', Dst = ''opened'', Err = None, Args = [],
      canceled = False, async = False\<rparr>
     \<lparr>Name = ''open'', Src = ''closed'', Dst = ''opened'', Err = None, Args = [],
      canceled = True, async = True\<rparr>
     \<in> set (snd (snd (StateMachine_Event refusing_gate ''open'' []))) \<and>
   fst (StateMachine_Event refusing_gate ''open'' []) = None \<and>
   startState (after_Event refusing_gate ''open'') = None \<and>
   current (after_Event refusing_gate ''open'') = ''closed'' \<and>
   list_ex defer_only_seen (snd (snd (StateMachine_Event deferring_gate ''open'' []))) \<and>
   startState (after_Event deferring_gate ''open'') \<noteq> None"
  using leave_cancel_before_defer
    [of refusing_gate "''open''" "[]"
        "fst (StateMachine_Event refusing_gate ''open'' [])"
        "after_Event refusing_gate ''open''"
        "snd (snd (StateMachine_Event refusing_gate ''open'' []))"
        "\<lparr>target = ''closed'', handlerType = leaveState\<rparr>"
        "\<lparr>Name = ''open'', Src = ''closed'', Dst = ''opened'', Err = None, Args = [],
          canceled = False, async = False\<rparr>"
        "\<lparr>Name = ''open'', Src = ''closed'', Dst = ''opened'', Err = None, Args = [],
          canceled = True, async = True\<rparr>"]
    leave_cancel_before_defer
    [of deferring_gate "''open''" "[]"
        "fst (StateMachine_Event deferring_gate ''open'' [])"
        "after_Event deferring_gate ''open''"
        "snd (snd (StateMachine_Event deferring_gate ''open'' []))"]
  by (simp add: refusing_gate_def deferring_gate_def run_simps)

text \<open>
  C10. Take a call of \<^verbatim>\<open>Event\<close> with nothing pending, for an event whose table entry
  under the current state gives \<open>dst\<close>. If a before callback returned with the async flag
  set, no callback is registered under the leave key of the current state or under the
  generic leave key, and no before callback cancelled, then the call completes the
  transition: it assigns \<open>dst\<close>, \<open>dst\<close> is the current state after it and nothing is
  pending. If a leave callback was invoked on a context whose async flag was already set and
  returned the context as it received it, then the call leaves the transition pending and
  the current state as it was.
\<close>

theorem async_read_after_leave_only:
  assumes "startState m = None"
    and "map_of (states m) \<lparr>event = n, src = current m\<rparr> = Some dst"
    and "StateMachine_Event m n args = (err, m', tr)"
  shows "(list_ex before_async_seen tr \<and>
          handlers m \<lparr>target = current m, handlerType = leaveState\<rparr> = None \<and>
          handlers m \<lparr>target = '''', handlerType = leaveState\<rparr> = None \<and>
          \<not> list_ex cancel_seen tr \<longrightarrow>
            current m' = dst \<and> startState m' = None \<and> SetCurrent dst \<in> set tr) \<and>
         (Call k e e \<in> set tr \<and> handlerType k = leaveState \<and> async e \<longrightarrow>
            startState m' \<noteq> None \<and> current m' = current m)"
  using Event_cases [of m n args]
proof
  assume "snd (StateMachine_Event m n args) = (m, [])"
  with assms show ?thesis
    by simp
next
  assume "\<exists>dst. startState m = None \<and>
      map_of (states m) \<lparr>event = n, src = current m\<rparr> = Some dst \<and> dst \<noteq> current m \<and>
      StateMachine_Event m n args =
        Event_before_named m n dst
          \<lparr>Name = n, Src = current m, Dst = dst, Err = None, Args = args,
           canceled = False, async = False\<rparr> []"
  then have
    run: "Event_before_named m n dst
          \<lparr>Name = n, Src = current m, Dst = dst, Err = None, Args = args,
           canceled = False, async = False\<rparr> [] = (err, m', tr)"
    using assms by auto
  show ?thesis
    using no_leave_run [OF assms(1) run] idle_leave_run [OF assms(1) run, of k e]
    by auto
qed

theorem async_read_after_leave_only_witness:
  "list_ex before_async_seen (snd (snd (StateMachine_Event hasty_gate ''open'' []))) \<and>
   current (after_Event hasty_gate ''open'') = ''opened'' \<and>
   startState (after_Event hasty_gate ''open'') = None \<and>
   Call \<lparr>target = '''', handlerType = leaveState\<rparr>
     \<lparr>Name = ''open'', Src = ''closed'', Dst = ''opened'', Err = None, Args = [],
      canceled = False, async = True\<rparr>
     \<lparr>Name = ''open'', Src = ''closed'', Dst = ''opened'', Err = None, Args = [],
      canceled = False, async = True\<rparr>
     \<in> set (snd (snd (StateMachine_Event patient_gate ''open'' []))) \<and>
   startState (after_Event patient_gate ''open'') \<noteq> None \<and>
   current (after_Event patient_gate ''open'') = ''closed''"
  using async_read_after_leave_only
    [of hasty_gate "''open''" "''opened''" "[]"
        "fst (StateMachine_Event hasty_gate ''open'' [])"
        "after_Event hasty_gate ''open''"
        "snd (snd (StateMachine_Event hasty_gate ''open'' []))"]
    async_read_after_leave_only
    [of patient_gate "''open''" "''opened''" "[]"
        "fst (StateMachine_Event patient_gate ''open'' [])"
        "after_Event patient_gate ''open''"
        "snd (snd (StateMachine_Event patient_gate ''open'' []))"
        "\<lparr>target = '''', handlerType = leaveState\<rparr>"
        "\<lparr>Name = ''open'', Src = ''closed'', Dst = ''opened'', Err = None, Args = [],
          canceled = False, async = True\<rparr>"]
  by (simp add: hasty_gate_def patient_gate_def run_simps)

end
